theory Spec2Isabelle
  imports Complex_Main
begin

section \<open>Strings and the regular expressions of the scraper\<close>

text \<open>
  The strings of the scraper are modelled as \<^typ>\<open>string\<close>. The model covers ASCII text:
  \<open>lower\<close>, case-insensitive matching and the whitespace class act on ASCII characters only
  (Python also folds and strips non-ASCII code points).
\<close>

definition ascii_uppercase :: string where
  "ascii_uppercase = ''ABCDEFGHIJKLMNOPQRSTUVWXYZ''"

definition ascii_lowercase :: string where
  "ascii_lowercase = ''abcdefghijklmnopqrstuvwxyz''"

definition lower_char :: "char \<Rightarrow> char" where
  "lower_char c = (case map_of (zip ascii_uppercase ascii_lowercase) c of Some d \<Rightarrow> d | None \<Rightarrow> c)"

text \<open>\<open>s.lower()\<close>.\<close>

definition lower :: "string \<Rightarrow> string" where
  "lower s = map lower_char s"

text \<open>\<open>s.startswith(p)\<close>, and \<open>k in v\<close> on strings (substring test).\<close>

fun prefix_of :: "string \<Rightarrow> string \<Rightarrow> bool" where
  "prefix_of [] s = True"
| "prefix_of (c # cs) [] = False"
| "prefix_of (c # cs) (d # ds) = (c = d \<and> prefix_of cs ds)"

fun str_in :: "string \<Rightarrow> string \<Rightarrow> bool" where
  "str_in k [] = (k = [])"
| "str_in k (c # cs) = (prefix_of k (c # cs) \<or> str_in k cs)"

text \<open>\<open>any(k in v for k in KEYWORDS)\<close>.\<close>

definition any_keyword_in :: "string list \<Rightarrow> string \<Rightarrow> bool" where
  "any_keyword_in kws v = list_ex (\<lambda>k. str_in k v) kws"

text \<open>
  The whitespace of \<open>str.strip()\<close> and of the pattern \<open>\s\<close>: tab, line feed, vertical tab,
  form feed, carriage return, the four separators 0x1C..0x1F and the space.
\<close>

definition is_space :: "char \<Rightarrow> bool" where
  "is_space c = (c \<in> set [CHR 0x09, CHR 0x0A, CHR 0x0B, CHR 0x0C, CHR 0x0D,
                            CHR 0x1C, CHR 0x1D, CHR 0x1E, CHR 0x1F, CHR 0x20])"

definition strip :: "string \<Rightarrow> string" where
  "strip s = rev (dropWhile is_space (rev (dropWhile is_space s)))"

text \<open>\<open>s.strip('"')\<close>.\<close>

definition strip_quotes :: "string \<Rightarrow> string" where
  "strip_quotes s = rev (dropWhile (\<lambda>c. c = CHR 0x22) (rev (dropWhile (\<lambda>c. c = CHR 0x22) s)))"

definition is_digit :: "char \<Rightarrow> bool" where
  "is_digit c = (c \<in> set ''0123456789'')"

text \<open>\<open>str(n)\<close> for an integer.\<close>

fun str_nat :: "nat \<Rightarrow> string" where
  "str_nat n = (if n < 10 then [''0123456789'' ! n]
                else str_nat (n div 10) @ [''0123456789'' ! (n mod 10)])"

definition str_int :: "int \<Rightarrow> string" where
  "str_int i = (if i < 0 then CHR ''-'' # str_nat (nat (- i)) else str_nat (nat i))"

text \<open>\<open>re.fullmatch(r"[0-9 .%]+", v)\<close>.\<close>

definition fullmatch_numeric :: "string \<Rightarrow> bool" where
  "fullmatch_numeric v = (v \<noteq> [] \<and> list_all (\<lambda>c. c \<in> set ''0123456789 .%'') v)"

text \<open>
  \<open>re.fullmatch(r"(?i)m\d+(?:_m\d+)*", k)\<close>, as the automaton of the pattern: an \<open>m\<close> of
  either case, one or more digits, and then the end or an underscore and the same again.
\<close>

datatype slot_state = ExpectM | ExpectDigit | InDigits

fun run_slot_pattern :: "slot_state \<Rightarrow> string \<Rightarrow> bool" where
  "run_slot_pattern st [] = (st = InDigits)"
| "run_slot_pattern ExpectM (c # cs) = ((c = CHR ''m'' \<or> c = CHR ''M'') \<and> run_slot_pattern ExpectDigit cs)"
| "run_slot_pattern ExpectDigit (c # cs) = (is_digit c \<and> run_slot_pattern InDigits cs)"
| "run_slot_pattern InDigits (c # cs) =
     (if is_digit c then run_slot_pattern InDigits cs
      else c = CHR ''_'' \<and> run_slot_pattern ExpectM cs)"

definition fullmatch_slot_pattern :: "string \<Rightarrow> bool" where
  "fullmatch_slot_pattern k = run_slot_pattern ExpectM k"

text \<open>
  \<open>re.search\<close> of a pattern \<open>A.*(B1|B2|...)\<close> with literal \<open>A\<close> and \<open>Bi\<close>: the dot matches
  every character but the line feed. \<open>dot_star_then\<close> matches \<open>.*(B1|...)\<close> at the head of
  the string, \<open>search_then\<close> looks for \<open>A\<close> at every position.
\<close>

fun dot_star_then :: "string list \<Rightarrow> string \<Rightarrow> bool" where
  "dot_star_then alts [] = list_ex (\<lambda>b. prefix_of b []) alts"
| "dot_star_then alts (c # cs) =
     (list_ex (\<lambda>b. prefix_of b (c # cs)) alts \<or> (c \<noteq> CHR 0x0A \<and> dot_star_then alts cs))"

fun search_then :: "string \<Rightarrow> string list \<Rightarrow> string \<Rightarrow> bool" where
  "search_then a alts [] = (prefix_of a [] \<and> dot_star_then alts [])"
| "search_then a alts (c # cs) =
     ((prefix_of a (c # cs) \<and> dot_star_then alts (drop (length a) (c # cs)))
      \<or> search_then a alts cs)"

section \<open>Keyword tables\<close>

definition AMINE_KEYWORDS :: "string list" where
  "AMINE_KEYWORDS = [''amine'', ''aniline'', ''nh2'', ''primary amine'', ''secondary amine'',
                     ''tertiary amine'']"

definition ARYL_HALIDE_KEYWORDS :: "string list" where
  "ARYL_HALIDE_KEYWORDS = [''aryl halide'', ''chlorobenz'', ''bromobenz'', ''iodobenz'',
                           ''chloro'', ''bromo'', ''iodo'', ''halide'']"

definition BASE_KEYWORDS :: "string list" where
  "BASE_KEYWORDS = [''carbonate'', ''bicarbonate'', ''hydroxide'', ''tert-butoxide'', ''otbu'',
                    ''triethylamine'', ''dipea'', ''hunig'', ''dbu'', ''dbn'', ''k3po4'',
                    ''k2co3'', ''cs2co3'', ''naoh'', ''koh'', ''naome'', ''kom e'', ''lihmds'',
                    ''nahmds'', ''sodium hydride'']"

definition METAL_KEYWORDS :: "string list" where
  "METAL_KEYWORDS = [''palladium'', ''pd'', ''nickel'', ''ni'', ''copper'', ''cu'', ''iron'',
                     ''fe'', ''ruthenium'', ''ru'', ''iridium'', ''ir'']"

definition LIGAND_KEYWORDS :: "string list" where
  "LIGAND_KEYWORDS = [''phos'', ''xphos'', ''sphos'', ''johnphos'', ''binap'', ''dppe'', ''dppf'',
                      ''dppp'', ''bipy'', ''phen'', ''bipyridine'', ''phosphine'', ''pcy3'']"

definition INPUT_KEY_CATEGORY_MAP :: "(string \<times> string) list" where
  "INPUT_KEY_CATEGORY_MAP =
     [(''base'', ''Base''), (''solvent'', ''Solvent''), (''ligand'', ''Ligand''),
      (''metal'', ''Metal''), (''catalyst'', ''Metal''), (''amine'', ''amine''),
      (''aryl halide'', ''aryl halide''), (''carboxylic acid'', ''carboxylic acid''),
      (''activation agent'', ''activation agent''), (''additive'', ''additive'')]"

section \<open>Identifier tests of the structured path\<close>

definition is_base_ident :: "string \<Rightarrow> bool" where
  "is_base_ident val =
     (let v = lower val in
      if any_keyword_in BASE_KEYWORDS v then True
      else if search_then ''[o-]'' [''[na+]'', ''[k+]'', ''[li+]''] v then True
      else if any_keyword_in [''carbonate'', ''hydroxide'', ''hmds'', ''otbu'', ''tert-butoxide'',
                              ''tertbutoxide''] v then True
      else False)"

definition is_amine_ident :: "string \<Rightarrow> bool" where
  "is_amine_ident val =
     (let v = lower val in
      if any_keyword_in AMINE_KEYWORDS v then True
      else if any_keyword_in [''nh2'', ''n2''] v then True
      else False)"

definition is_aryl_halide_ident :: "string \<Rightarrow> bool" where
  "is_aryl_halide_ident val =
     (let v = lower val in
      if any_keyword_in ARYL_HALIDE_KEYWORDS v then True
      else if search_then ''c'' [''cl'', ''br'', ''i''] v then True
      else False)"

definition is_metal_ident :: "string \<Rightarrow> bool" where
  "is_metal_ident val = (let v = lower val in if any_keyword_in METAL_KEYWORDS v then True else False)"

definition is_ligand_ident :: "string \<Rightarrow> bool" where
  "is_ligand_ident val = (let v = lower val in if any_keyword_in LIGAND_KEYWORDS v then True else False)"

section \<open>The aggregate of a dataset\<close>

text \<open>
  One evidence item is the dictionary appended to a raw list; the field \<open>item_value\<close> is its
  \<open>"value"\<close> entry. An aggregate holds the two tables \<open>agg_counts\<close> and \<open>raw\<close> of
  \<open>aggregate_dataset\<close>; a key that was never touched is absent from the map.
\<close>

record evidence =
  reaction_id :: string
  input_key :: string
  reaction_role :: "string option"
  identifier_type :: string
  item_value :: string

record aggregate =
  counts :: "string \<rightharpoonup> (string \<rightharpoonup> nat)"
  raw :: "string \<rightharpoonup> evidence list"

definition empty_aggregate :: aggregate where
  "empty_aggregate = \<lparr>counts = Map.empty, raw = Map.empty\<rparr>"

text \<open>\<open>raw[cat].append(item)\<close> on a \<open>defaultdict(list)\<close>.\<close>

definition raw_append :: "string \<Rightarrow> evidence \<Rightarrow> aggregate \<Rightarrow> aggregate" where
  "raw_append cat it a =
     a\<lparr>raw := (raw a)(cat \<mapsto> (case raw a cat of None \<Rightarrow> [] | Some l \<Rightarrow> l) @ [it])\<rparr>"

text \<open>\<open>table[cat][v] += 1\<close> on a \<open>defaultdict(Counter)\<close>.\<close>

type_synonym counter_table = "string \<rightharpoonup> (string \<rightharpoonup> nat)"

definition table_incr :: "string \<Rightarrow> string \<Rightarrow> counter_table \<Rightarrow> counter_table" where
  "table_incr cat v t =
     (let m = (case t cat of None \<Rightarrow> Map.empty | Some m \<Rightarrow> m)
      in t(cat \<mapsto> m(v \<mapsto> (case m v of None \<Rightarrow> 0 | Some n \<Rightarrow> n) + 1)))"

text \<open>\<open>agg_counts[cat][v] += 1\<close>.\<close>

definition count_incr :: "string \<Rightarrow> string \<Rightarrow> aggregate \<Rightarrow> aggregate" where
  "count_incr cat v a = a\<lparr>counts := table_incr cat v (counts a)\<rparr>"

text \<open>Reading the tables the way \<open>.get(cat, {}).get(v, 0)\<close> and \<open>.get(cat, [])\<close> do.\<close>

definition table_count :: "counter_table \<Rightarrow> string \<Rightarrow> string \<Rightarrow> nat" where
  "table_count t cat v =
     (case t cat of None \<Rightarrow> 0 | Some m \<Rightarrow> (case m v of None \<Rightarrow> 0 | Some n \<Rightarrow> n))"

definition count_of :: "aggregate \<Rightarrow> string \<Rightarrow> string \<Rightarrow> nat" where
  "count_of a cat v = table_count (counts a) cat v"

definition raw_of :: "aggregate \<Rightarrow> string \<Rightarrow> evidence list" where
  "raw_of a cat = (case raw a cat of None \<Rightarrow> [] | Some l \<Rightarrow> l)"

section \<open>The structured-record extractor\<close>

text \<open>
  A decoded reaction, as far as \<open>aggregate_dataset\<close> reads it: \<open>rxn.inputs\<close> is a list of
  slots (key and components, in iteration order), a component has its \<open>reaction_role\<close> number
  and its identifiers, an identifier its type number and value.
\<close>

record compound_identifier =
  ident_type :: int
  ident_value :: string

record component =
  role_num :: int
  identifiers :: "compound_identifier list"

record reaction =
  inputs :: "(string \<times> component list) list"

text \<open>One record of the query result: \<open>item.get("reaction_id")\<close> and \<open>item.get("proto")\<close>.\<close>

record query_item =
  item_reaction_id :: "string option"
  item_proto :: "string option"

text \<open>
  What the function takes from outside the repository: the flag \<open>HAS_ORD\<close>, the decoder
  (\<open>b64decode\<close> and \<open>ParseFromString\<close>; \<open>None\<close> when either raises) and the two enumerations
  of the schema (\<open>Name(value)\<close>; \<open>None\<close> when it raises).
\<close>

record ord_env =
  HAS_ORD :: bool
  decode :: "string \<Rightarrow> reaction option"
  ReactionRoleType :: "int \<Rightarrow> string option"
  CompoundIdentifierType :: "int \<Rightarrow> string option"

definition enum_name :: "(int \<Rightarrow> string option) \<Rightarrow> int \<Rightarrow> string" where
  "enum_name enum_cls v = (case enum_cls v of Some n \<Rightarrow> n | None \<Rightarrow> str_int v)"

text \<open>Python truthiness of an optional string.\<close>

fun truthy :: "string option \<Rightarrow> bool" where
  "truthy None = False"
| "truthy (Some s) = (s \<noteq> [])"

text \<open>The value of \<open>cat_by_key\<close> after lines 304 to 306, \<open>None\<close> when it is falsy.\<close>

definition slot_category :: "string \<Rightarrow> string option" where
  "slot_category k =
     (let cat_by_key = map_of INPUT_KEY_CATEGORY_MAP (lower k);
          cat_by_key = (if \<not> truthy cat_by_key \<and> fullmatch_slot_pattern k then Some k
                        else cat_by_key)
      in if truthy cat_by_key then cat_by_key else None)"

definition mk_item :: "string \<Rightarrow> string \<Rightarrow> string option \<Rightarrow> string \<times> string \<Rightarrow> evidence" where
  "mk_item rid k role_name ident =
     \<lparr>reaction_id = rid, input_key = k, reaction_role = role_name,
      identifier_type = fst ident, item_value = snd ident\<rparr>"

text \<open>The body of the loop over \<open>idents\<close> when the slot has a category (lines 308 to 311).\<close>

definition slot_step :: "string \<Rightarrow> string \<Rightarrow> string \<Rightarrow> string option \<Rightarrow> string \<times> string \<Rightarrow>
    aggregate \<Rightarrow> aggregate" where
  "slot_step cat rid k role_name ident a =
     (let v = snd ident in count_incr cat v (raw_append cat (mk_item rid k role_name ident) a))"

text \<open>The body of the loop over \<open>idents\<close> when it has none (lines 313 to 334).\<close>

definition role_step :: "string \<Rightarrow> string \<Rightarrow> string option \<Rightarrow> string \<times> string \<Rightarrow>
    aggregate \<Rightarrow> aggregate" where
  "role_step rid k role_name ident a =
     (let v = snd ident; it = mk_item rid k role_name ident in
      if role_name = Some ''SOLVENT'' then count_incr ''Solvent'' v (raw_append ''Solvent'' it a)
      else if role_name = Some ''CATALYST'' then
        (let a = (if is_metal_ident v then count_incr ''Metal'' v (raw_append ''Metal'' it a) else a);
             a = (if is_ligand_ident v then count_incr ''Ligand'' v (raw_append ''Ligand'' it a) else a)
         in a)
      else if role_name = Some ''REAGENT'' \<or> role_name = Some ''REACTANT'' then
        (let a = (if is_base_ident v then count_incr ''Base'' v (raw_append ''Base'' it a) else a);
             a = (if is_amine_ident v then count_incr ''amine'' v (raw_append ''amine'' it a) else a);
             a = (if is_aryl_halide_ident v
                  then count_incr ''aryl halide'' v (raw_append ''aryl halide'' it a) else a)
         in a)
      else a)"

text \<open>
  The body of the loop over \<open>inp.components\<close> (lines 298 to 334). The role number of a
  decoded component is an integer, so \<open>role_name\<close> is always the name of the role.
\<close>

definition component_step :: "ord_env \<Rightarrow> string \<Rightarrow> string \<Rightarrow> component \<Rightarrow> aggregate \<Rightarrow> aggregate" where
  "component_step env rid k cmpt a =
     (let role_name = Some (enum_name (ReactionRoleType env) (role_num cmpt));
          idents = map (\<lambda>i. (enum_name (CompoundIdentifierType env) (ident_type i), ident_value i))
                       (identifiers cmpt)
      in case slot_category k of
           Some cat_by_key \<Rightarrow> fold (slot_step cat_by_key rid k role_name) idents a
         | None \<Rightarrow> fold (role_step rid k role_name) idents a)"

definition reaction_step :: "ord_env \<Rightarrow> string \<Rightarrow> reaction \<Rightarrow> aggregate \<Rightarrow> aggregate" where
  "reaction_step env rid rxn a =
     fold (\<lambda>(k, comps). fold (component_step env rid k) comps) (inputs rxn) a"

text \<open>
  The body of the loop over \<open>items\<close>. A decoding failure is caught by \<open>except Exception: pass\<close>
  before anything was recorded for the item; the pause after each item is left out.
\<close>

definition item_step :: "ord_env \<Rightarrow> query_item \<Rightarrow> aggregate \<Rightarrow> aggregate" where
  "item_step env item a =
     (if \<not> truthy (item_reaction_id item) then a
      else if HAS_ORD env \<and> truthy (item_proto item) then
        (case decode env (the (item_proto item)) of
           None \<Rightarrow> a
         | Some rxn \<Rightarrow> reaction_step env (the (item_reaction_id item)) rxn a)
      else a)"

section \<open>Polling for the query result\<close>

datatype exn = RuntimeError string | TimeoutError string | TypeError string | ValueError string
  | RequestException string

text \<open>
  One round of the loop of \<open>fetch_query_result\<close>, as the service and the clock decide it:
  \<open>GetRaises e\<close> when the request itself raises; \<open>Reply status body now\<close> for a response
  with that status code, where \<open>body\<close> is what \<open>r.json()\<close> gives (or raises) and \<open>now\<close> is
  the value of \<open>time.time() - t0\<close> read after the pause that follows a 202. The pause is not
  modelled beyond that reading. The list of rounds is finite: \<open>None\<close> means that the loop is
  still polling when the list ends.
\<close>

datatype 'p poll = GetRaises exn | Reply int "exn + 'p" rat

fun poll_loop :: "string \<Rightarrow> rat \<Rightarrow> rat \<Rightarrow> 'p poll list \<Rightarrow> (exn + 'p) option" where
  "poll_loop task_id timeout_seconds delay [] = None"
| "poll_loop task_id timeout_seconds delay (GetRaises e # ps) = Some (Inl e)"
| "poll_loop task_id timeout_seconds delay (Reply status body now # ps) =
     (if status = 200 then Some body
      else if status = 202 then
        (if now > timeout_seconds
         then Some (Inl (TimeoutError (''Timeout waiting for task '' @ task_id)))
         else poll_loop task_id timeout_seconds (min 5 (delay * (3 / 2))) ps)
      else if status = 404 then Some (Inl (RuntimeError (''Task '' @ task_id @ '' not found'')))
      else Some (Inl (RuntimeError
             (''Unexpected status '' @ str_int status @ '' for task '' @ task_id))))"

definition fetch_query_result :: "string \<Rightarrow> rat \<Rightarrow> 'p poll list \<Rightarrow> (exn + 'p) option" where
  "fetch_query_result task_id timeout_seconds ps = poll_loop task_id timeout_seconds (1 / 2) ps"

section \<open>One dataset, and the loop of main\<close>

text \<open>
  What the service does while one dataset is processed: the text of the reply to the query
  submission (or the exception of the request or of \<open>raise_for_status\<close>), and the rounds of
  the poll that follows.
\<close>

record dataset_script =
  submit_reply :: "exn + string"
  poll_rounds :: "query_item list poll list"

definition submit_query_for_dataset :: "dataset_script \<Rightarrow> exn + string" where
  "submit_query_for_dataset sc =
     (case submit_reply sc of Inl e \<Rightarrow> Inl e | Inr txt \<Rightarrow> Inr (strip_quotes (strip txt)))"

text \<open>
  \<open>aggregate_dataset\<close> polls with the default timeout of 120 seconds. The dataset id and
  the record limit only go into the request; what comes back is the script.
\<close>

definition aggregate_dataset :: "ord_env \<Rightarrow> dataset_script \<Rightarrow> (exn + aggregate) option" where
  "aggregate_dataset env sc =
     (case submit_query_for_dataset sc of
        Inl e \<Rightarrow> Some (Inl e)
      | Inr tid \<Rightarrow>
          (case fetch_query_result tid 120 (poll_rounds sc) of
             None \<Rightarrow> None
           | Some (Inl e) \<Rightarrow> Some (Inl e)
           | Some (Inr items) \<Rightarrow> Some (Inr (fold (item_step env) items empty_aggregate))))"

text \<open>The body of \<open>if data:\<close> in \<open>main\<close>: what is stored under the dataset id.\<close>

definition output_filter :: "bool \<Rightarrow> bool \<Rightarrow> aggregate \<Rightarrow> aggregate" where
  "output_filter base_only smiles_only data =
     (if base_only then
        (let base_raw = filter (\<lambda>x. \<not> smiles_only \<or> identifier_type x = ''SMILES'')
                               (case raw data ''Base'' of None \<Rightarrow> [] | Some l \<Rightarrow> l);
             base_counts = (case counts data ''Base'' of None \<Rightarrow> Map.empty | Some m \<Rightarrow> m)
         in \<lparr>counts = [''Base'' \<mapsto> base_counts], raw = [''Base'' \<mapsto> base_raw]\<rparr>)
      else if smiles_only then
        data\<lparr>raw := (\<lambda>k. map_option (filter (\<lambda>x. identifier_type x = ''SMILES'')) (raw data k))\<rparr>
      else data)"

text \<open>
  The loop \<open>for did in target_ids\<close>, started with the empty \<open>result\<close>: an exception of
  \<open>aggregate_dataset\<close> is caught and the loop goes on with the next id. \<open>None\<close> when the poll
  of some dataset does not come to an end within its script.
\<close>

fun main_loop :: "ord_env \<Rightarrow> bool \<Rightarrow> bool \<Rightarrow> (string \<times> dataset_script) list \<Rightarrow>
    (string \<rightharpoonup> aggregate) \<Rightarrow> (string \<rightharpoonup> aggregate) option" where
  "main_loop env base_only smiles_only [] result = Some result"
| "main_loop env base_only smiles_only ((did, sc) # rest) result =
     (case aggregate_dataset env sc of
        None \<Rightarrow> None
      | Some (Inl e) \<Rightarrow> main_loop env base_only smiles_only rest result
      | Some (Inr data) \<Rightarrow>
          main_loop env base_only smiles_only rest
            (result(did \<mapsto> output_filter base_only smiles_only data)))"

section \<open>The HTML extractor\<close>

fun pick_name_from_cells :: "string list \<Rightarrow> string option" where
  "pick_name_from_cells [] = None"
| "pick_name_from_cells (v # cells) =
     (if v = [] then pick_name_from_cells cells
      else if fullmatch_numeric v then pick_name_from_cells cells
      else if lower v \<in> set [''reagent'', ''reactant'', ''solvent'', ''ligand'', ''metal'', ''base'']
        then pick_name_from_cells cells
      else Some v)"

definition classify_from_text :: "string \<Rightarrow> string \<Rightarrow> string option" where
  "classify_from_text name label =
     (let lv = lower label; nm = lower name in
      if lv = ''solvent'' then Some ''Solvent''
      else if lv = ''ligand'' then Some ''Ligand''
      else if lv = ''metal'' then Some ''Metal''
      else if lv = ''base'' then Some ''Base''
      else if lv = ''reagent'' \<or> lv = ''reactant'' then
        (if any_keyword_in BASE_KEYWORDS nm then Some ''Base''
         else if any_keyword_in AMINE_KEYWORDS nm then Some ''amine''
         else if any_keyword_in LIGAND_KEYWORDS nm then Some ''Ligand''
         else if any_keyword_in METAL_KEYWORDS nm then Some ''Metal''
         else if any_keyword_in ARYL_HALIDE_KEYWORDS nm \<or> (str_in ''br'' nm \<and> str_in ''c'' nm)
                 \<or> (str_in ''cl'' nm \<and> str_in ''c'' nm) \<or> (str_in ''i'' nm \<and> str_in ''c'' nm)
           then Some ''aryl halide''
         else None)
      else None)"

text \<open>
  The parsed document, as far as \<open>extract_components\<close> reads it: for every \<open>tr\<close> the stripped
  texts of its \<open>td\<close> cells and the stripped text of its first link, if it has one; and the
  text of the whole document.
\<close>

record table_row =
  cells :: "string list"
  first_link :: "string option"

record summary_doc =
  table_rows :: "table_row list"
  visible_text :: string

text \<open>The body of the loop over the rows (lines 204 to 221).\<close>

definition row_step :: "table_row \<Rightarrow> counter_table \<Rightarrow> counter_table" where
  "row_step tr out =
     (if cells tr = [] then out
      else
        (let label = find (\<lambda>v. lower v \<in> set [''solvent'', ''reagent'', ''reactant'', ''ligand'',
                                                ''metal'', ''base'']) (rev (cells tr))
         in if \<not> truthy label then out
            else
              (let name = pick_name_from_cells (butlast (cells tr));
                   name = (if \<not> truthy name then first_link tr else name);
                   cat = classify_from_text (if truthy name then the name else []) (the label)
               in if truthy cat \<and> truthy name then table_incr (the cat) (the name) out else out)))"

text \<open>
  The free-text pass. \<open>match_label_at lab s\<close> matches the pattern
  \<open>lab\s*:\s*([^\n\r<]+)\<close>, ignoring the case of \<open>lab\<close>, at the head of \<open>s\<close> and gives group 1
  and the length of the match. The second \<open>\s*\<close> is greedy and gives characters back, one at
  a time, until the group is not empty: \<open>backtrack_group i s\<close> tries the group after \<open>i\<close>,
  then \<open>i - 1\<close>, ... characters of \<open>s\<close>.
\<close>

definition group_char :: "char \<Rightarrow> bool" where
  "group_char c = (c \<notin> set [CHR 0x0A, CHR 0x0D, CHR ''<''])"

fun backtrack_group :: "nat \<Rightarrow> string \<Rightarrow> (nat \<times> string) option" where
  "backtrack_group 0 s =
     (let g = takeWhile group_char s in if g \<noteq> [] then Some (0, g) else None)"
| "backtrack_group (Suc i) s =
     (let g = takeWhile group_char (drop (Suc i) s)
      in if g \<noteq> [] then Some (Suc i, g) else backtrack_group i s)"

definition match_label_at :: "string \<Rightarrow> string \<Rightarrow> (string \<times> nat) option" where
  "match_label_at lab s =
     (if length lab \<le> length s \<and> lower (take (length lab) s) = lower lab then
        (let r1 = drop (length lab) s; w1 = takeWhile is_space r1
         in case dropWhile is_space r1 of
              [] \<Rightarrow> None
            | c # r3 \<Rightarrow>
                if c \<noteq> CHR '':'' then None
                else (case backtrack_group (length (takeWhile is_space r3)) r3 of
                        None \<Rightarrow> None
                      | Some (i, g) \<Rightarrow> Some (g, length lab + length w1 + 1 + i + length g)))
      else None)"

text \<open>
  \<open>re.finditer\<close>: the matches from left to right, none overlapping an earlier one; \<open>skip\<close>
  counts the characters of the last match that are still ahead.
\<close>

fun finditer_label :: "string \<Rightarrow> nat \<Rightarrow> string \<Rightarrow> string list" where
  "finditer_label lab skip [] = []"
| "finditer_label lab skip (c # cs) =
     (if skip > 0 then finditer_label lab (skip - 1) cs
      else case match_label_at lab (c # cs) of
             None \<Rightarrow> finditer_label lab 0 cs
           | Some (g, n) \<Rightarrow> g # finditer_label lab (n - 1) cs)"

text \<open>\<open>re.split(r"[;,]\s*", raw)\<close>; \<open>cur\<close> is the piece read so far.\<close>

function re_split :: "string \<Rightarrow> string \<Rightarrow> string list" where
  "re_split cur [] = [cur]"
| "re_split cur (c # cs) =
     (if c = CHR '';'' \<or> c = CHR '','' then cur # re_split [] (dropWhile is_space cs)
      else re_split (cur @ [c]) cs)"
  by pat_completeness auto
termination
  by (relation "measure (\<lambda>(cur, s). length s)") (auto simp: le_imp_less_Suc length_dropWhile_le)

definition split_parts :: "string \<Rightarrow> string list" where
  "split_parts raw_text = map strip (filter (\<lambda>p. strip p \<noteq> []) (re_split [] raw_text))"

definition label_step :: "string \<Rightarrow> string \<times> string \<Rightarrow> counter_table \<Rightarrow> counter_table" where
  "label_step txt lc out =
     fold (\<lambda>m out. fold (\<lambda>p. table_incr (snd lc) p) (split_parts m) out)
          (finditer_label (fst lc) 0 txt) out"

definition extract_components :: "summary_doc \<Rightarrow> counter_table" where
  "extract_components doc =
     fold (label_step (visible_text doc))
          [(''Base'', ''Base''), (''Solvent'', ''Solvent''), (''Ligand'', ''Ligand''),
           (''Catalyst'', ''Metal'')]
          (fold row_step (table_rows doc) Map.empty)"

section \<open>The helper shout\<close>

text \<open>
  The argument of \<open>shout\<close> is any Python value; a \<open>str\<close> is the list of its code points.
  \<open>s.upper()\<close> replaces every code point by its full uppercase mapping, one code point at
  a time and whatever stands around it, and joins the results. For the ASCII code points the
  mapping is written out: a lowercase letter goes to the uppercase letter, every other
  code point to itself. From 128 on it is the table of the interpreter's Unicode database,
  which is not part of the repository and is a parameter here; it can give several code
  points for one (U+00DF gives SS).
\<close>

type_synonym code_point = nat

definition ascii_upper_table :: "(code_point \<times> code_point) list" where
  "ascii_upper_table = zip (map of_char ascii_lowercase) (map of_char ascii_uppercase)"

definition upper_code_point :: "(code_point \<Rightarrow> code_point list) \<Rightarrow> code_point \<Rightarrow> code_point list" where
  "upper_code_point to_upper_full c =
     (if c < 128 then (case map_of ascii_upper_table c of Some d \<Rightarrow> [d] | None \<Rightarrow> [c])
      else to_upper_full c)"

definition str_upper :: "(code_point \<Rightarrow> code_point list) \<Rightarrow> code_point list \<Rightarrow> code_point list" where
  "str_upper to_upper_full s = concat (map (upper_code_point to_upper_full) s)"

text \<open>The values a caller can pass: \<open>isinstance(s, str)\<close> holds of the strings only.\<close>

datatype pyval = PyNone | PyBool bool | PyInt int | PyStr "code_point list" | PyBytes string
  | PyList "pyval list"

fun isinstance_str :: "pyval \<Rightarrow> bool" where
  "isinstance_str (PyStr s) = True"
| "isinstance_str v = False"

fun shout :: "(code_point \<Rightarrow> code_point list) \<Rightarrow> pyval \<Rightarrow> exn + code_point list" where
  "shout to_upper_full (PyStr s) = Inr (str_upper to_upper_full s)"
| "shout to_upper_full v = Inl (TypeError ''s must be a string'')"

text \<open>
  A table for evaluating the model: U+00E9 goes to U+00C9, U+00DF to the two letters SS,
  every other code point to itself.
\<close>

definition example_to_upper :: "code_point \<Rightarrow> code_point list" where
  "example_to_upper c = (if c = 233 then [201] else if c = 223 then [83, 83] else [c])"

section \<open>Lock-step of the two tables\<close>

text \<open>
  The aggregates that are built from the empty one by paired steps only: one append to
  \<open>raw[cat]\<close> of an item, directly followed by one increment of \<open>counts[cat]\<close> at the
  value of that item.
\<close>

inductive built_in_lockstep :: "aggregate \<Rightarrow> bool" where
  lockstep_empty: "built_in_lockstep empty_aggregate"
| lockstep_step: "built_in_lockstep a \<Longrightarrow>
     built_in_lockstep (count_incr cat (item_value it) (raw_append cat it a))"

section \<open>Example inputs\<close>

text \<open>
  A small service for evaluating the model: one reaction with a slot named after a
  category, a slot with a structural key and a slot without category; the role and
  identifier type numbers are named as in the schema of the database.
\<close>

definition example_roles :: "int \<Rightarrow> string option" where
  "example_roles = map_of [(0, ''UNSPECIFIED''), (1, ''REACTANT''), (2, ''REAGENT''),
                           (3, ''SOLVENT''), (4, ''CATALYST'')]"

definition example_types :: "int \<Rightarrow> string option" where
  "example_types = map_of [(0, ''UNSPECIFIED''), (1, ''CUSTOM''), (2, ''SMILES''),
                           (6, ''NAME'')]"

definition example_reaction :: reaction where
  "example_reaction = \<lparr>inputs =
     [(''Base'', [\<lparr>role_num = 2, identifiers =
                     [\<lparr>ident_type = 2, ident_value = ''CCN(CC)CC''\<rparr>,
                      \<lparr>ident_type = 6, ident_value = ''triethylamine''\<rparr>]\<rparr>]),
      (''m1_m2'', [\<lparr>role_num = 1, identifiers =
                      [\<lparr>ident_type = 2, ident_value = ''Brc1ccccc1''\<rparr>]\<rparr>]),
      (''other'', [\<lparr>role_num = 2, identifiers =
                      [\<lparr>ident_type = 6, ident_value = ''triethylamine''\<rparr>]\<rparr>,
                   \<lparr>role_num = 3, identifiers =
                      [\<lparr>ident_type = 6, ident_value = ''THF''\<rparr>]\<rparr>])]\<rparr>"

definition example_env :: ord_env where
  "example_env = \<lparr>HAS_ORD = True,
                  decode = (\<lambda>b. if b = ''blob-1'' then Some example_reaction else None),
                  ReactionRoleType = example_roles,
                  CompoundIdentifierType = example_types\<rparr>"

definition example_items :: "query_item list" where
  "example_items =
     [\<lparr>item_reaction_id = Some ''ord-1'', item_proto = Some ''blob-1''\<rparr>,
      \<lparr>item_reaction_id = None, item_proto = Some ''blob-1''\<rparr>,
      \<lparr>item_reaction_id = Some ''ord-3'', item_proto = Some ''broken''\<rparr>]"

definition example_script :: dataset_script where
  "example_script = \<lparr>submit_reply = Inr ''task-1'',
                     poll_rounds = [Reply 202 (Inr []) 1, Reply 200 (Inr example_items) 2]\<rparr>"

definition failing_script :: dataset_script where
  "failing_script = \<lparr>submit_reply = Inr ''task-2'',
                     poll_rounds = [Reply 202 (Inr []) 1, Reply 404 (Inr []) 2]\<rparr>"

text \<open>The aggregate of the example dataset.\<close>

definition example_aggregate :: aggregate where
  "example_aggregate = fold (item_step example_env) example_items empty_aggregate"

section \<open>The priority order of the text classifier, and example documents\<close>

text \<open>
  The tests of the text classifier for a reagent or reactant row, in their priority order,
  and the category of the first test that holds of a lowercased name.
\<close>

definition priority_tests :: "(string \<times> (string \<Rightarrow> bool)) list" where
  "priority_tests =
     [(''Base'', any_keyword_in BASE_KEYWORDS),
      (''amine'', any_keyword_in AMINE_KEYWORDS),
      (''Ligand'', any_keyword_in LIGAND_KEYWORDS),
      (''Metal'', any_keyword_in METAL_KEYWORDS),
      (''aryl halide'', \<lambda>nm. any_keyword_in ARYL_HALIDE_KEYWORDS nm
          \<or> (str_in ''br'' nm \<and> str_in ''c'' nm) \<or> (str_in ''cl'' nm \<and> str_in ''c'' nm)
          \<or> (str_in ''i'' nm \<and> str_in ''c'' nm))]"

definition first_match :: "string \<Rightarrow> string option" where
  "first_match nm = map_option fst (find (\<lambda>ct. snd ct nm) priority_tests)"

text \<open>A document with the single row \<open>amount, K2CO3, Reagent\<close> and the text of that row.\<close>

definition k2co3_doc :: "string \<Rightarrow> summary_doc" where
  "k2co3_doc amount =
     \<lparr>table_rows = [\<lparr>cells = [amount, ''K2CO3'', ''Reagent''], first_link = None\<rparr>],
      visible_text = amount @ '' K2CO3 Reagent''\<rparr>"

section \<open>The substring test\<close>

text \<open>\<open>str_in k v\<close> holds exactly when \<open>k\<close> occurs in \<open>v\<close>.\<close>

lemma prefix_of_iff: "prefix_of k v \<longleftrightarrow> (\<exists>b. v = k @ b)"
  by (induction k v rule: prefix_of.induct) auto

lemma str_in_iff: "str_in k v \<longleftrightarrow> (\<exists>a b. v = a @ k @ b)"
proof (induction v)
  case Nil
  show ?case by auto
next
  case (Cons c cs)
  show ?case
  proof
    assume "str_in k (c # cs)"
    then consider "prefix_of k (c # cs)" | "str_in k cs" by auto
    then show "\<exists>a b. c # cs = a @ k @ b"
    proof cases
      case 1
      then obtain b where "c # cs = k @ b" by (auto simp: prefix_of_iff)
      then have "c # cs = [] @ k @ b" by simp
      then show ?thesis by blast
    next
      case 2
      with Cons.IH obtain a b where "cs = a @ k @ b" by auto
      then have "c # cs = (c # a) @ k @ b" by simp
      then show ?thesis by blast
    qed
  next
    assume "\<exists>a b. c # cs = a @ k @ b"
    then obtain a b where ab: "c # cs = a @ k @ b" by blast
    show "str_in k (c # cs)"
    proof (cases a)
      case Nil
      with ab have "prefix_of k (c # cs)" by (auto simp: prefix_of_iff)
      then show ?thesis by simp
    next
      case (Cons a' as)
      with ab have "cs = as @ k @ b" by simp
      with Cons.IH have "str_in k cs" by blast
      then show ?thesis by simp
    qed
  qed
qed

section \<open>Properties of the aggregate\<close>

lemma raw_of_count_incr [simp]: "raw_of (count_incr cat v a) c = raw_of a c"
  by (simp add: raw_of_def count_incr_def)

lemma raw_of_raw_append [simp]:
  "raw_of (raw_append cat it a) c = (if c = cat then raw_of a c @ [it] else raw_of a c)"
  by (simp add: raw_of_def raw_append_def)

lemma count_of_raw_append [simp]: "count_of (raw_append cat it a) c w = count_of a c w"
  by (simp add: count_of_def raw_append_def)

lemma count_of_count_incr [simp]:
  "count_of (count_incr cat v a) c w = (if c = cat \<and> w = v then count_of a c w + 1 else count_of a c w)"
  by (simp add: count_of_def table_count_def count_incr_def table_incr_def Let_def split: option.splits)

lemma raw_dom_count_incr [simp]: "raw (count_incr cat v a) = raw a"
  by (simp add: count_incr_def)

lemma counts_dom_raw_append [simp]: "counts (raw_append cat it a) = counts a"
  by (simp add: raw_append_def)

lemma dom_raw_append [simp]: "dom (raw (raw_append cat it a)) = insert cat (dom (raw a))"
  by (simp add: raw_append_def)

lemma dom_count_incr [simp]: "dom (counts (count_incr cat v a)) = insert cat (dom (counts a))"
  by (simp add: count_incr_def table_incr_def Let_def)

lemma built_in_lockstep_counts:
  "built_in_lockstep a \<Longrightarrow> count_of a cat v = length (filter (\<lambda>it. item_value it = v) (raw_of a cat))"
proof (induction rule: built_in_lockstep.induct)
  case lockstep_empty
  show ?case by (simp add: count_of_def table_count_def raw_of_def empty_aggregate_def)
next
  case (lockstep_step a cat' it)
  then show ?case by auto
qed

lemma built_in_lockstep_dom:
  "built_in_lockstep a \<Longrightarrow> dom (counts a) = dom (raw a)"
  by (induction rule: built_in_lockstep.induct) (auto simp: empty_aggregate_def)

lemma paired_built:
  "built_in_lockstep a \<Longrightarrow>
   built_in_lockstep (count_incr cat (snd ident) (raw_append cat (mk_item rid k rn ident) a))"
  using lockstep_step [of a cat "mk_item rid k rn ident"] by (simp add: mk_item_def)

lemma slot_step_built: "built_in_lockstep a \<Longrightarrow> built_in_lockstep (slot_step cat rid k rn ident a)"
  by (simp add: slot_step_def Let_def paired_built)

lemma role_step_built: "built_in_lockstep a \<Longrightarrow> built_in_lockstep (role_step rid k rn ident a)"
  by (simp add: role_step_def Let_def paired_built)

lemma component_step_built:
  "built_in_lockstep a \<Longrightarrow> built_in_lockstep (component_step env rid k cmpt a)"
proof -
  assume a: "built_in_lockstep a"
  show ?thesis
  proof (cases "slot_category k")
    case None
    have "built_in_lockstep (fold (role_step rid k rn) ids a)" for rn ids
      using a by (induction ids arbitrary: a) (simp_all add: role_step_built)
    with None show ?thesis by (simp add: component_step_def Let_def)
  next
    case (Some c)
    have "built_in_lockstep (fold (slot_step c rid k rn) ids a)" for rn ids
      using a by (induction ids arbitrary: a) (simp_all add: slot_step_built)
    with Some show ?thesis by (simp add: component_step_def Let_def)
  qed
qed

lemma components_built:
  "built_in_lockstep a \<Longrightarrow> built_in_lockstep (fold (component_step env rid k) comps a)"
  by (induction comps arbitrary: a) (simp_all add: component_step_built)

lemma reaction_step_built:
  "built_in_lockstep a \<Longrightarrow> built_in_lockstep (reaction_step env rid rxn a)"
proof -
  have "built_in_lockstep a \<Longrightarrow>
      built_in_lockstep (fold (\<lambda>(k, comps). fold (component_step env rid k) comps) slots a)" for slots
    by (induction slots arbitrary: a) (auto simp: components_built)
  then show "built_in_lockstep a \<Longrightarrow> ?thesis" by (simp add: reaction_step_def)
qed

lemma item_step_built: "built_in_lockstep a \<Longrightarrow> built_in_lockstep (item_step env item a)"
  by (auto simp: item_step_def reaction_step_built split: option.splits)

lemma items_built:
  "built_in_lockstep a \<Longrightarrow> built_in_lockstep (fold (item_step env) items a)"
  by (induction items arbitrary: a) (simp_all add: item_step_built)

text \<open>
  C1: in every aggregate that \<open>aggregate_dataset\<close> returns, the two tables were built by
  paired steps only (each count increment directly after one append of an item with that
  value to the raw list of the same category), the tables have the same categories, and for
  every category and value the count equals the number of raw items with that value.
\<close>

theorem aggregate_dataset_lockstep:
  assumes "aggregate_dataset env sc = Some (Inr agg)"
  shows "built_in_lockstep agg
    \<and> dom (counts agg) = dom (raw agg)
    \<and> (\<forall>cat v. count_of agg cat v = length (filter (\<lambda>it. item_value it = v) (raw_of agg cat)))"
proof -
  from assms obtain items where "agg = fold (item_step env) items empty_aggregate"
    by (auto simp: aggregate_dataset_def split: sum.splits option.splits)
  then have "built_in_lockstep agg" by (simp add: items_built lockstep_empty)
  then show ?thesis
    by (simp add: built_in_lockstep_counts built_in_lockstep_dom)
qed



theorem aggregate_dataset_lockstep_witness:
  "\<exists>agg. aggregate_dataset example_env example_script = Some (Inr agg)
     \<and> count_of agg ''Base'' ''triethylamine'' = 2
     \<and> length (filter (\<lambda>it. item_value it = ''triethylamine'') (raw_of agg ''Base'')) = 2"
proof -
  have e: "aggregate_dataset example_env example_script
     = Some (Inr (fold (item_step example_env) example_items empty_aggregate))"
    by (simp add: aggregate_dataset_def submit_query_for_dataset_def example_script_def
        fetch_query_result_def strip_def strip_quotes_def is_space_def)
  have c: "count_of (fold (item_step example_env) example_items empty_aggregate)
             ''Base'' ''triethylamine'' = 2"
    by code_simp
  from aggregate_dataset_lockstep [OF e] c e show ?thesis by simp
qed

lemma map_category_nonempty: "map_of INPUT_KEY_CATEGORY_MAP x = Some c \<Longrightarrow> c \<noteq> []"
  by (auto simp: INPUT_KEY_CATEGORY_MAP_def split: if_splits)

lemma slot_pattern_nonempty: "fullmatch_slot_pattern k \<Longrightarrow> k \<noteq> []"
  by (auto simp: fullmatch_slot_pattern_def)

lemma slot_category_map:
  "map_of INPUT_KEY_CATEGORY_MAP (lower k) = Some c \<Longrightarrow> slot_category k = Some c"
  by (simp add: slot_category_def Let_def map_category_nonempty)

lemma slot_category_pattern:
  "map_of INPUT_KEY_CATEGORY_MAP (lower k) = None \<Longrightarrow> fullmatch_slot_pattern k \<Longrightarrow>
   slot_category k = Some k"
  by (simp add: slot_category_def Let_def slot_pattern_nonempty)

lemma raw_of_fold_slot_step:
  "raw_of (fold (slot_step c rid k rn) ids a) c' =
     (if c' = c then raw_of a c' @ map (mk_item rid k rn) ids else raw_of a c')"
  by (induction ids arbitrary: a) (simp_all add: slot_step_def Let_def)

lemma count_of_fold_slot_step:
  "count_of (fold (slot_step c rid k rn) ids a) c' w =
     (if c' = c then count_of a c' w + length (filter (\<lambda>i. snd i = w) ids) else count_of a c' w)"
  by (induction ids arbitrary: a) (auto simp: slot_step_def Let_def)


text \<open>
  C2: when the lowercased slot key is in the key-to-category map (category: the mapped value)
  or, failing that, the key fully matches the structural pattern (category: the key itself),
  every identifier of every component of the slot is recorded under exactly that category,
  in order, whatever the value and whatever the role of the component: the raw list of the
  category grows by one item per identifier, its counts by the number of identifiers with
  that value, and no other category changes.
\<close>

theorem slot_category_emits_all:
  assumes "map_of INPUT_KEY_CATEGORY_MAP (lower k) = Some c
           \<or> (map_of INPUT_KEY_CATEGORY_MAP (lower k) = None \<and> fullmatch_slot_pattern k \<and> c = k)"
  shows "raw_of (component_step env rid k cmpt a) c =
           raw_of a c @ map (\<lambda>i. \<lparr>reaction_id = rid, input_key = k,
                                  reaction_role = Some (enum_name (ReactionRoleType env) (role_num cmpt)),
                                  identifier_type = enum_name (CompoundIdentifierType env) (ident_type i),
                                  item_value = ident_value i\<rparr>) (identifiers cmpt)
       \<and> (\<forall>w. count_of (component_step env rid k cmpt a) c w =
                count_of a c w + length (filter (\<lambda>i. ident_value i = w) (identifiers cmpt)))
       \<and> (\<forall>c'. c' \<noteq> c \<longrightarrow> raw_of (component_step env rid k cmpt a) c' = raw_of a c'
                \<and> (\<forall>w. count_of (component_step env rid k cmpt a) c' w = count_of a c' w))"
proof -
  from assms have sc: "slot_category k = Some c"
    by (auto simp: slot_category_map slot_category_pattern)
  have cs: "component_step env rid k cmpt a =
      fold (slot_step c rid k (Some (enum_name (ReactionRoleType env) (role_num cmpt))))
        (map (\<lambda>i. (enum_name (CompoundIdentifierType env) (ident_type i), ident_value i))
             (identifiers cmpt)) a"
    by (simp add: component_step_def Let_def sc)
  show ?thesis
    unfolding cs raw_of_fold_slot_step count_of_fold_slot_step
    by (simp add: mk_item_def comp_def filter_map)
qed


theorem slot_category_emits_all_witness:
  "map_of INPUT_KEY_CATEGORY_MAP (lower ''BASE'') = Some ''Base''
   \<and> map item_value (raw_of (component_step example_env ''ord-1'' ''BASE''
         \<lparr>role_num = 3, identifiers = [\<lparr>ident_type = 6, ident_value = ''water''\<rparr>]\<rparr>
         empty_aggregate) ''Base'') = [''water'']
   \<and> raw_of (component_step example_env ''ord-1'' ''BASE''
         \<lparr>role_num = 3, identifiers = [\<lparr>ident_type = 6, ident_value = ''water''\<rparr>]\<rparr>
         empty_aggregate) ''Solvent'' = []
   \<and> count_of (component_step example_env ''ord-1'' ''BASE''
         \<lparr>role_num = 3, identifiers = [\<lparr>ident_type = 6, ident_value = ''water''\<rparr>]\<rparr>
         empty_aggregate) ''Base'' ''water'' = 1"
proof -
  have h: "map_of INPUT_KEY_CATEGORY_MAP (lower ''BASE'') = Some ''Base''"
    by code_simp
  have r: "raw_of empty_aggregate c = []" for c
    by (simp add: raw_of_def empty_aggregate_def)
  have n: "count_of empty_aggregate c w = 0" for c w
    by (simp add: count_of_def table_count_def empty_aggregate_def)
  from slot_category_emits_all [of "''BASE''" "''Base''" example_env "''ord-1''"
      "\<lparr>role_num = 3, identifiers = [\<lparr>ident_type = 6, ident_value = ''water''\<rparr>]\<rparr>"
      empty_aggregate] h
  show ?thesis by (simp add: r n)
qed

lemma role_step_reagent:
  assumes "rn = Some ''REAGENT'' \<or> rn = Some ''REACTANT''"
  shows "role_step rid k rn ident a =
     (let v = snd ident; it = mk_item rid k rn ident;
          a = (if is_base_ident v then count_incr ''Base'' v (raw_append ''Base'' it a) else a);
          a = (if is_amine_ident v then count_incr ''amine'' v (raw_append ''amine'' it a) else a);
          a = (if is_aryl_halide_ident v
               then count_incr ''aryl halide'' v (raw_append ''aryl halide'' it a) else a)
      in a)"
  using assms by (auto simp: role_step_def Let_def)

lemma raw_of_role_step_reagent:
  assumes "rn = Some ''REAGENT'' \<or> rn = Some ''REACTANT''"
  shows "raw_of (role_step rid k rn ident a) c =
     raw_of a c @ (if (c = ''Base'' \<and> is_base_ident (snd ident))
                      \<or> (c = ''amine'' \<and> is_amine_ident (snd ident))
                      \<or> (c = ''aryl halide'' \<and> is_aryl_halide_ident (snd ident))
                   then [mk_item rid k rn ident] else [])"
  unfolding role_step_reagent [OF assms] Let_def by simp

lemma count_of_role_step_reagent:
  assumes "rn = Some ''REAGENT'' \<or> rn = Some ''REACTANT''"
  shows "count_of (role_step rid k rn ident a) c w =
     count_of a c w + (if w = snd ident \<and> ((c = ''Base'' \<and> is_base_ident (snd ident))
                      \<or> (c = ''amine'' \<and> is_amine_ident (snd ident))
                      \<or> (c = ''aryl halide'' \<and> is_aryl_halide_ident (snd ident)))
                   then 1 else 0)"
proof (cases "w = snd ident")
  case True
  show ?thesis unfolding role_step_reagent [OF assms] Let_def True
    by (cases "is_base_ident (snd ident)"; cases "is_amine_ident (snd ident)";
        cases "is_aryl_halide_ident (snd ident)") simp_all
next
  case False
  then show ?thesis unfolding role_step_reagent [OF assms] Let_def by simp
qed


lemma raw_of_fold_role_step_reagent:
  "rn = Some ''REAGENT'' \<or> rn = Some ''REACTANT'' \<Longrightarrow>
   raw_of (fold (role_step rid k rn) ids a) c =
     raw_of a c @ map (mk_item rid k rn)
       (filter (\<lambda>i. (c = ''Base'' \<and> is_base_ident (snd i))
                      \<or> (c = ''amine'' \<and> is_amine_ident (snd i))
                      \<or> (c = ''aryl halide'' \<and> is_aryl_halide_ident (snd i))) ids)"
proof (induction ids arbitrary: a)
  case Nil
  show ?case by simp
next
  case (Cons i ids)
  show ?case
    unfolding fold_simps comp_def Cons.IH [OF Cons.prems] raw_of_role_step_reagent [OF Cons.prems]
    by (simp del: append_assoc)
qed

lemma count_of_fold_role_step_reagent:
  "rn = Some ''REAGENT'' \<or> rn = Some ''REACTANT'' \<Longrightarrow>
   count_of (fold (role_step rid k rn) ids a) c w =
     count_of a c w + length
       (filter (\<lambda>i. w = snd i \<and> ((c = ''Base'' \<and> is_base_ident (snd i))
                      \<or> (c = ''amine'' \<and> is_amine_ident (snd i))
                      \<or> (c = ''aryl halide'' \<and> is_aryl_halide_ident (snd i)))) ids)"
proof (induction ids arbitrary: a)
  case Nil
  show ?case by simp
next
  case (Cons i ids)
  show ?case
    unfolding fold_simps comp_def Cons.IH [OF Cons.prems] count_of_role_step_reagent [OF Cons.prems]
    by (cases "w = snd i \<and> ((c = ''Base'' \<and> is_base_ident (snd i))
                      \<or> (c = ''amine'' \<and> is_amine_ident (snd i))
                      \<or> (c = ''aryl halide'' \<and> is_aryl_halide_ident (snd i)))") simp_all
qed


lemma triethylamine_tests:
  "is_base_ident ''triethylamine'' \<and> is_amine_ident ''triethylamine''
   \<and> \<not> is_aryl_halide_ident ''triethylamine''"
  by code_simp

text \<open>
  C3: in a slot without category, for a component whose role is REAGENT or REACTANT, the
  Base, amine and aryl halide tests are applied to every identifier independently: each of
  the three raw lists grows by the items of exactly the identifiers that pass its own test,
  the counts grow with them, and no other category changes. The value triethylamine passes
  the Base test and the amine test.
\<close>

theorem reagent_tests_independent:
  assumes "slot_category k = None"
    and "enum_name (ReactionRoleType env) (role_num cmpt) = ''REAGENT''
         \<or> enum_name (ReactionRoleType env) (role_num cmpt) = ''REACTANT''"
  shows "(\<forall>c. raw_of (component_step env rid k cmpt a) c =
            raw_of a c @
            map (\<lambda>i. mk_item rid k (Some (enum_name (ReactionRoleType env) (role_num cmpt)))
                       (enum_name (CompoundIdentifierType env) (ident_type i), ident_value i))
              (filter (\<lambda>i. (c = ''Base'' \<and> is_base_ident (ident_value i))
                           \<or> (c = ''amine'' \<and> is_amine_ident (ident_value i))
                           \<or> (c = ''aryl halide'' \<and> is_aryl_halide_ident (ident_value i)))
                 (identifiers cmpt)))
       \<and> (\<forall>c w. count_of (component_step env rid k cmpt a) c w =
            count_of a c w +
            length (filter (\<lambda>i. w = ident_value i \<and>
                           ((c = ''Base'' \<and> is_base_ident (ident_value i))
                           \<or> (c = ''amine'' \<and> is_amine_ident (ident_value i))
                           \<or> (c = ''aryl halide'' \<and> is_aryl_halide_ident (ident_value i))))
                 (identifiers cmpt)))
       \<and> is_base_ident ''triethylamine'' \<and> is_amine_ident ''triethylamine''"
proof -
  let ?rn = "Some (enum_name (ReactionRoleType env) (role_num cmpt))"
  let ?f = "\<lambda>i. (enum_name (CompoundIdentifierType env) (ident_type i), ident_value i)"
  have rn: "?rn = Some ''REAGENT'' \<or> ?rn = Some ''REACTANT''"
    using assms(2) by simp
  have cs: "component_step env rid k cmpt a =
      fold (role_step rid k ?rn) (map ?f (identifiers cmpt)) a"
    by (simp add: component_step_def Let_def assms(1))
  show ?thesis
    unfolding cs raw_of_fold_role_step_reagent [OF rn] count_of_fold_role_step_reagent [OF rn]
    by (simp add: filter_map comp_def triethylamine_tests)
qed

theorem reagent_tests_independent_witness:
  "slot_category ''other'' = None
   \<and> enum_name (ReactionRoleType example_env) 2 = ''REAGENT''
   \<and> map item_value (raw_of (component_step example_env ''ord-1'' ''other''
         \<lparr>role_num = 2, identifiers = [\<lparr>ident_type = 6, ident_value = ''triethylamine''\<rparr>]\<rparr>
         empty_aggregate) ''Base'') = [''triethylamine'']
   \<and> map item_value (raw_of (component_step example_env ''ord-1'' ''other''
         \<lparr>role_num = 2, identifiers = [\<lparr>ident_type = 6, ident_value = ''triethylamine''\<rparr>]\<rparr>
         empty_aggregate) ''amine'') = [''triethylamine'']
   \<and> raw_of (component_step example_env ''ord-1'' ''other''
         \<lparr>role_num = 2, identifiers = [\<lparr>ident_type = 6, ident_value = ''triethylamine''\<rparr>]\<rparr>
         empty_aggregate) ''aryl halide'' = []
   \<and> count_of (component_step example_env ''ord-1'' ''other''
         \<lparr>role_num = 2, identifiers = [\<lparr>ident_type = 6, ident_value = ''triethylamine''\<rparr>]\<rparr>
         empty_aggregate) ''amine'' ''triethylamine'' = 1"
proof -
  have h1: "slot_category ''other'' = None"
    by code_simp
  have h2: "enum_name (ReactionRoleType example_env) 2 = ''REAGENT''"
    by code_simp
  have r: "raw_of empty_aggregate c = []" for c
    by (simp add: raw_of_def empty_aggregate_def)
  have n: "count_of empty_aggregate c w = 0" for c w
    by (simp add: count_of_def table_count_def empty_aggregate_def)
  from reagent_tests_independent [of "''other''" example_env
      "\<lparr>role_num = 2, identifiers = [\<lparr>ident_type = 6, ident_value = ''triethylamine''\<rparr>]\<rparr>"
      "''ord-1''" empty_aggregate] h1 h2
  show ?thesis by (simp add: r n triethylamine_tests mk_item_def)
qed

section \<open>Properties of the HTML extractor\<close>

lemma classify_reagent:
  assumes "lower label = ''reagent'' \<or> lower label = ''reactant''"
  shows "classify_from_text name label = first_match (lower name)"
proof -
  have ne: "lower label \<noteq> ''solvent''" "lower label \<noteq> ''ligand''"
    "lower label \<noteq> ''metal''" "lower label \<noteq> ''base''"
    using assms by auto
  have fm: "first_match nm =
     (if any_keyword_in BASE_KEYWORDS nm then Some ''Base''
      else if any_keyword_in AMINE_KEYWORDS nm then Some ''amine''
      else if any_keyword_in LIGAND_KEYWORDS nm then Some ''Ligand''
      else if any_keyword_in METAL_KEYWORDS nm then Some ''Metal''
      else if any_keyword_in ARYL_HALIDE_KEYWORDS nm \<or> (str_in ''br'' nm \<and> str_in ''c'' nm)
              \<or> (str_in ''cl'' nm \<and> str_in ''c'' nm) \<or> (str_in ''i'' nm \<and> str_in ''c'' nm)
        then Some ''aryl halide''
      else None)" for nm
    by (simp add: first_match_def priority_tests_def)
  show ?thesis
    unfolding classify_from_text_def Let_def fm
    by (simp only: ne assms if_False if_True)
qed

lemma triethylamine_keywords:
  "any_keyword_in BASE_KEYWORDS (lower ''triethylamine'')
   \<and> any_keyword_in AMINE_KEYWORDS (lower ''triethylamine'')"
  by code_simp


text \<open>
  C4: for a row labelled reagent or reactant (in any case), the text classifier returns the
  category of the first test that holds in the order Base, amine, Ligand, Metal, aryl halide
  (keywords or halogen heuristic), and nothing when none holds; so a name that passes the
  Base test is Base whatever else it passes, as triethylamine, which also passes the amine
  test.
\<close>

theorem classify_from_text_first_match:
  assumes "lower label = ''reagent'' \<or> lower label = ''reactant''"
  shows "classify_from_text name label = first_match (lower name)
       \<and> (any_keyword_in BASE_KEYWORDS (lower name) \<longrightarrow>
            classify_from_text name label = Some ''Base'')
       \<and> classify_from_text ''triethylamine'' label = Some ''Base''
       \<and> any_keyword_in AMINE_KEYWORDS (lower ''triethylamine'')"
proof -
  have b: "any_keyword_in BASE_KEYWORDS nm \<Longrightarrow> first_match nm = Some ''Base''" for nm
    by (simp add: first_match_def priority_tests_def)
  show ?thesis
    unfolding classify_reagent [OF assms]
    using triethylamine_keywords by (simp add: b)
qed

theorem classify_from_text_first_match_witness:
  "lower ''Reagent'' = ''reagent''
   \<and> classify_from_text ''Triethylamine'' ''Reagent'' = first_match (lower ''Triethylamine'')
   \<and> classify_from_text ''triethylamine'' ''Reagent'' = Some ''Base''
   \<and> any_keyword_in AMINE_KEYWORDS (lower ''triethylamine'')"
proof -
  have h: "lower ''Reagent'' = ''reagent''"
    by code_simp
  from classify_from_text_first_match [OF disjI1 [OF h], of "''Triethylamine''"] h
  show ?thesis by blast
qed

text \<open>
  C5 as stated fails on the code: the cell 1.0 eq does not fully match the numeric pattern,
  it is the name picked for the row, no category is found for it, and the count of
  (Base, K2CO3) stays 0.
\<close>

theorem k2co3_row_counterexample:
  "\<not> fullmatch_numeric ''1.0 eq''
   \<and> pick_name_from_cells (butlast [''1.0 eq'', ''K2CO3'', ''Reagent'']) = Some ''1.0 eq''
   \<and> classify_from_text ''1.0 eq'' ''Reagent'' = None
   \<and> table_count (extract_components (k2co3_doc ''1.0 eq'')) ''Base'' ''K2CO3'' = 0"
  by code_simp

lemma no_label_in_k2co3_text:
  "finditer_label ''Base'' 0 ''1.0 eq K2CO3 Reagent'' = []
   \<and> finditer_label ''Solvent'' 0 ''1.0 eq K2CO3 Reagent'' = []
   \<and> finditer_label ''Ligand'' 0 ''1.0 eq K2CO3 Reagent'' = []
   \<and> finditer_label ''Catalyst'' 0 ''1.0 eq K2CO3 Reagent'' = []"
  by code_simp

lemma k2co3_eq_row_step:
  "row_step \<lparr>cells = [''1.0 eq'', ''K2CO3'', ''Reagent''], first_link = None\<rparr> out = out"
proof -
  have l: "find (\<lambda>v. lower v \<in> set [''solvent'', ''reagent'', ''reactant'', ''ligand'', ''metal'', ''base''])
        (rev [''1.0 eq'', ''K2CO3'', ''Reagent'']) = Some ''Reagent''"
    by code_simp
  have p: "pick_name_from_cells (butlast [''1.0 eq'', ''K2CO3'', ''Reagent'']) = Some ''1.0 eq''"
    by code_simp
  have c: "classify_from_text ''1.0 eq'' ''Reagent'' = None"
    by code_simp
  show ?thesis
    unfolding row_step_def Let_def
    by (simp only: table_row.simps l p truthy.simps option.sel) (simp add: c)
qed

text \<open>
  C5, as amended: in the row 1.0 eq, K2CO3, Reagent the cell 1.0 eq does not match the
  numeric pattern (it has letters), so it is the name that is picked; no keyword is in it
  and the document yields no evidence at all. With the cell 1.0 in its place the label is
  Reagent, the scan skips 1.0 and picks K2CO3, which is Base by the keyword k2co3 (the
  keyword carbonate is not in it), and (Base, K2CO3) is recorded with count 1.
\<close>

theorem k2co3_row_amended:
  "extract_components (k2co3_doc ''1.0 eq'') cat = None
   \<and> \<not> fullmatch_numeric ''1.0 eq''
   \<and> pick_name_from_cells (butlast [''1.0 eq'', ''K2CO3'', ''Reagent'']) = Some ''1.0 eq''
   \<and> find (\<lambda>v. lower v \<in> set [''solvent'', ''reagent'', ''reactant'', ''ligand'', ''metal'', ''base''])
        (rev [''1.0'', ''K2CO3'', ''Reagent'']) = Some ''Reagent''
   \<and> fullmatch_numeric ''1.0''
   \<and> pick_name_from_cells (butlast [''1.0'', ''K2CO3'', ''Reagent'']) = Some ''K2CO3''
   \<and> \<not> str_in ''carbonate'' (lower ''K2CO3'') \<and> str_in ''k2co3'' (lower ''K2CO3'')
   \<and> classify_from_text ''K2CO3'' ''Reagent'' = Some ''Base''
   \<and> table_count (extract_components (k2co3_doc ''1.0'')) ''Base'' ''K2CO3'' = 1"
proof -
  have A: "\<not> fullmatch_numeric ''1.0 eq''
   \<and> pick_name_from_cells (butlast [''1.0 eq'', ''K2CO3'', ''Reagent'']) = Some ''1.0 eq''
   \<and> find (\<lambda>v. lower v \<in> set [''solvent'', ''reagent'', ''reactant'', ''ligand'', ''metal'', ''base''])
        (rev [''1.0'', ''K2CO3'', ''Reagent'']) = Some ''Reagent''
   \<and> fullmatch_numeric ''1.0''
   \<and> pick_name_from_cells (butlast [''1.0'', ''K2CO3'', ''Reagent'']) = Some ''K2CO3''
   \<and> \<not> str_in ''carbonate'' (lower ''K2CO3'') \<and> str_in ''k2co3'' (lower ''K2CO3'')
   \<and> classify_from_text ''K2CO3'' ''Reagent'' = Some ''Base''
   \<and> table_count (extract_components (k2co3_doc ''1.0'')) ''Base'' ''K2CO3'' = 1"
    by code_simp
  have t: "visible_text (k2co3_doc ''1.0 eq'') = ''1.0 eq K2CO3 Reagent''"
    by (simp add: k2co3_doc_def)
  have r: "table_rows (k2co3_doc ''1.0 eq'') =
      [\<lparr>cells = [''1.0 eq'', ''K2CO3'', ''Reagent''], first_link = None\<rparr>]"
    by (simp add: k2co3_doc_def)
  have ls: "label_step ''1.0 eq K2CO3 Reagent'' (''Base'', ''Base'') out = out"
    "label_step ''1.0 eq K2CO3 Reagent'' (''Solvent'', ''Solvent'') out = out"
    "label_step ''1.0 eq K2CO3 Reagent'' (''Ligand'', ''Ligand'') out = out"
    "label_step ''1.0 eq K2CO3 Reagent'' (''Catalyst'', ''Metal'') out = out" for out
    unfolding label_step_def fst_conv snd_conv
    by (simp_all only: no_label_in_k2co3_text fold.simps id_apply)
  have B: "extract_components (k2co3_doc ''1.0 eq'') cat = None"
    unfolding extract_components_def t r
    by (simp only: fold.simps comp_apply id_apply ls k2co3_eq_row_step)
  show ?thesis by (rule conjI [OF B A])
qed

text \<open>
  C6 on the code: in the row Reagent, K2CO3 the label is the first cell. The scan runs over
  all cells but the last, so K2CO3 is never looked at and the row yields nothing, although
  the scan of the cells other than the label would pick K2CO3, a Base.
\<close>

theorem label_not_last_drops_last_cell:
  "find (\<lambda>v. lower v \<in> set [''solvent'', ''reagent'', ''reactant'', ''ligand'', ''metal'', ''base''])
        (rev [''Reagent'', ''K2CO3'']) = Some ''Reagent''
   \<and> pick_name_from_cells (butlast [''Reagent'', ''K2CO3'']) = None
   \<and> pick_name_from_cells [''K2CO3''] = Some ''K2CO3''
   \<and> classify_from_text ''K2CO3'' ''Reagent'' = Some ''Base''
   \<and> table_count (extract_components
        \<lparr>table_rows = [\<lparr>cells = [''Reagent'', ''K2CO3''], first_link = None\<rparr>],
         visible_text = ''Reagent K2CO3''\<rparr>) ''Base'' ''K2CO3'' = 0"
  by code_simp

section \<open>The output filter\<close>

text \<open>
  C7: the SMILES-only filter replaces every raw list of the stored aggregate by its sublist
  of the items whose identifier type is SMILES and leaves the counts tables as they are,
  with and without the Base-only filter; without the Base-only filter the counts are those
  of the aggregate itself.
\<close>

theorem smiles_filter_keeps_counts:
  "counts (output_filter base_only True d) = counts (output_filter base_only False d)
   \<and> raw (output_filter base_only True d) k =
       map_option (filter (\<lambda>x. identifier_type x = ''SMILES''))
                  (raw (output_filter base_only False d) k)
   \<and> counts (output_filter False True d) = counts d
   \<and> raw (output_filter False True d) k =
       map_option (filter (\<lambda>x. identifier_type x = ''SMILES'')) (raw d k)"
  by (simp add: output_filter_def)

theorem smiles_filter_keeps_counts_witness:
  "count_of (output_filter False True example_aggregate) ''Base'' ''triethylamine'' = 2
   \<and> map item_value (raw_of (output_filter False True example_aggregate) ''Base'') = [''CCN(CC)CC'']"
proof -
  have c: "count_of example_aggregate ''Base'' ''triethylamine'' = 2"
    by code_simp
  have r: "map item_value (filter (\<lambda>x. identifier_type x = ''SMILES'')
             (raw_of example_aggregate ''Base'')) = [''CCN(CC)CC'']"
    by code_simp
  from smiles_filter_keeps_counts [of False example_aggregate "''Base''"]
  have "counts (output_filter False True example_aggregate) = counts example_aggregate"
    and "raw (output_filter False True example_aggregate) ''Base'' =
       map_option (filter (\<lambda>x. identifier_type x = ''SMILES'')) (raw example_aggregate ''Base'')"
    by blast+
  then show ?thesis using c r
    by (cases "raw example_aggregate ''Base''") (simp_all add: count_of_def raw_of_def)
qed


section \<open>Properties of the poll loop\<close>

lemma poll_loop_not_ready_prefix:
  assumes "\<forall>p \<in> set pre. \<exists>body now. p = Reply 202 body now \<and> now \<le> timeout_seconds"
  shows "\<exists>delay'. poll_loop task_id timeout_seconds delay (pre @ ps) =
                   poll_loop task_id timeout_seconds delay' ps"
  using assms
proof (induction pre arbitrary: delay)
  case Nil
  show ?case by auto
next
  case (Cons p pre)
  from Cons.prems obtain body now where p: "p = Reply 202 body now" and n: "now \<le> timeout_seconds"
    by auto
  from Cons.prems have "\<forall>p \<in> set pre. \<exists>body now. p = Reply 202 body now \<and> now \<le> timeout_seconds"
    by simp
  from Cons.IH [OF this] obtain delay' where
    "poll_loop task_id timeout_seconds (min 5 (delay * (3 / 2))) (pre @ ps) =
     poll_loop task_id timeout_seconds delay' ps"
    by blast
  with p n show ?case by auto
qed

text \<open>
  C9: after any finite run of not-ready (202) replies whose clock readings are within the
  timeout, the next reply decides the outcome, whatever replies would follow: a 200 returns
  its payload, a 404 raises the not-found failure, any status other than 200, 202 and 404
  raises the unexpected-status failure, and a 202 whose clock reading exceeds the timeout
  raises the timeout failure.
\<close>

theorem poll_loop_outcomes:
  assumes "\<forall>p \<in> set pre. \<exists>body now. p = Reply 202 body now \<and> now \<le> timeout_seconds"
  shows "fetch_query_result task_id timeout_seconds (pre @ Reply 200 (Inr payload) now # rest)
           = Some (Inr payload)
       \<and> fetch_query_result task_id timeout_seconds (pre @ Reply 404 body now # rest)
           = Some (Inl (RuntimeError (''Task '' @ task_id @ '' not found'')))
       \<and> (status \<notin> {200, 202, 404} \<longrightarrow>
            fetch_query_result task_id timeout_seconds (pre @ Reply status body now # rest)
              = Some (Inl (RuntimeError
                  (''Unexpected status '' @ str_int status @ '' for task '' @ task_id))))
       \<and> (now > timeout_seconds \<longrightarrow>
            fetch_query_result task_id timeout_seconds (pre @ Reply 202 body now # rest)
              = Some (Inl (TimeoutError (''Timeout waiting for task '' @ task_id))))"
proof -
  have step: "\<exists>delay'. fetch_query_result task_id timeout_seconds (pre @ ps) =
                   poll_loop task_id timeout_seconds delay' ps" for ps :: "'a poll list"
    unfolding fetch_query_result_def by (rule poll_loop_not_ready_prefix [OF assms])
  have a: "fetch_query_result task_id timeout_seconds (pre @ Reply 200 (Inr payload) now # rest)
           = Some (Inr payload)"
    using step [of "Reply 200 (Inr payload) now # rest"] by auto
  have b: "fetch_query_result task_id timeout_seconds (pre @ Reply 404 body now # rest)
           = Some (Inl (RuntimeError (''Task '' @ task_id @ '' not found'')))"
    using step [of "Reply 404 body now # rest"] by auto
  have c: "fetch_query_result task_id timeout_seconds (pre @ Reply status body now # rest)
              = Some (Inl (RuntimeError
                  (''Unexpected status '' @ str_int status @ '' for task '' @ task_id)))"
    if "status \<notin> {200, 202, 404}"
    using step [of "Reply status body now # rest"] that by auto
  have d: "fetch_query_result task_id timeout_seconds (pre @ Reply 202 body now # rest)
              = Some (Inl (TimeoutError (''Timeout waiting for task '' @ task_id)))"
    if "now > timeout_seconds"
    using step [of "Reply 202 body now # rest"] that by auto
  from a b c d show ?thesis by blast
qed

theorem poll_loop_outcomes_witness:
  "fetch_query_result ''t1'' 120 [Reply 202 (Inr []) 1, Reply 202 (Inr []) 2,
       Reply 200 (Inr [1, 2, 3 :: nat]) 3, Reply 404 (Inr []) 4] = Some (Inr [1, 2, 3])
   \<and> fetch_query_result ''t1'' 120 [Reply 202 (Inr []) 1, Reply 202 (Inr []) 2,
       Reply 404 (Inr [1 :: nat]) 3, Reply 200 (Inr []) 4]
       = Some (Inl (RuntimeError ''Task t1 not found''))
   \<and> fetch_query_result ''t1'' 120 [Reply 202 (Inr []) 1, Reply 202 (Inr []) 2,
       Reply 500 (Inr [1 :: nat]) 3, Reply 200 (Inr []) 4]
       = Some (Inl (RuntimeError ''Unexpected status 500 for task t1''))
   \<and> fetch_query_result ''t1'' 120 [Reply 202 (Inr []) 1, Reply 202 (Inr []) 2,
       Reply 202 (Inr [1 :: nat]) 121, Reply 200 (Inr []) 122]
       = Some (Inl (TimeoutError ''Timeout waiting for task t1''))"
proof -
  have h: "\<forall>p \<in> set [Reply 202 (Inr []) 1, Reply 202 (Inr ([] :: nat list)) 2].
             \<exists>body now. p = Reply 202 body now \<and> now \<le> (120 :: rat)"
    by simp
  have s: "str_int 500 = ''500''"
    by code_simp
  from poll_loop_outcomes [OF h, of "''t1''" "[1, 2, 3]" 3 "[Reply 404 (Inr []) 4]"]
    poll_loop_outcomes [OF h, of "''t1''" _ 3 "[Reply 200 (Inr []) 4]" "Inr [1]" 500]
    poll_loop_outcomes [OF h, of "''t1''" _ 121 "[Reply 200 (Inr []) 122]" "Inr [1]"]
  show ?thesis by (simp add: s)
qed

section \<open>Properties of the loop of main\<close>

lemma main_loop_Inl:
  "aggregate_dataset env sc = Some (Inl e) \<Longrightarrow>
   main_loop env b s ((d, sc) # rest) result = main_loop env b s rest result"
  by simp

lemma main_loop_Inr:
  "aggregate_dataset env sc = Some (Inr data) \<Longrightarrow>
   main_loop env b s ((d, sc) # rest) result =
     main_loop env b s rest (result(d \<mapsto> output_filter b s data))"
  by simp

lemma main_loop_None:
  "aggregate_dataset env sc = None \<Longrightarrow> main_loop env b s ((d, sc) # rest) result = None"
  by simp

lemma main_loop_skip:
  assumes "aggregate_dataset env sc = Some (Inl e)"
  shows "main_loop env b s (xs @ (D, sc) # ys) result = main_loop env b s (xs @ ys) result"
proof (induction xs arbitrary: result)
  case Nil
  show ?case by (simp only: append_Nil main_loop_Inl [OF assms])
next
  case (Cons x xs)
  obtain d sc' where x: "x = (d, sc')" by (cases x)
  show ?case
  proof (cases "aggregate_dataset env sc'")
    case None
    show ?thesis by (simp only: x append_Cons main_loop_None [OF None])
  next
    case (Some o')
    show ?thesis
    proof (cases o')
      case (Inl e')
      with Some have a: "aggregate_dataset env sc' = Some (Inl e')" by simp
      show ?thesis by (simp only: x append_Cons main_loop_Inl [OF a] Cons.IH)
    next
      case (Inr data)
      with Some have a: "aggregate_dataset env sc' = Some (Inr data)" by simp
      show ?thesis by (simp only: x append_Cons main_loop_Inr [OF a] Cons.IH)
    qed
  qed
qed

lemma main_loop_returns:
  assumes "\<forall>p \<in> set ds. aggregate_dataset env (snd p) \<noteq> None"
  shows "\<exists>res. main_loop env b s ds result = Some res"
  using assms
proof (induction ds arbitrary: result)
  case Nil
  show ?case by simp
next
  case (Cons x ds)
  obtain d sc' where x: "x = (d, sc')" by (cases x)
  from Cons.prems have r: "\<forall>p \<in> set ds. aggregate_dataset env (snd p) \<noteq> None"
    and h: "aggregate_dataset env sc' \<noteq> None"
    by (simp_all add: x)
  from h obtain o' where o: "aggregate_dataset env sc' = Some o'" by auto
  show ?case unfolding x using Cons.IH [OF r] o by (cases o') simp_all
qed

lemma main_loop_absent:
  assumes "\<forall>p \<in> set ds. fst p = D \<longrightarrow> (\<exists>e. aggregate_dataset env (snd p) = Some (Inl e))"
    and "result D = None"
    and "main_loop env b s ds result = Some res"
  shows "res D = None"
  using assms
proof (induction ds arbitrary: result)
  case Nil
  then show ?case by simp
next
  case (Cons x ds)
  obtain d sc' where x: "x = (d, sc')" by (cases x)
  from Cons.prems(1) have r: "\<forall>p \<in> set ds. fst p = D \<longrightarrow> (\<exists>e. aggregate_dataset env (snd p) = Some (Inl e))"
    by simp
  show ?case
  proof (cases "aggregate_dataset env sc'")
    case None
    with Cons.prems(3) show ?thesis by (simp add: x)
  next
    case (Some o')
    show ?thesis
    proof (cases o')
      case (Inl e)
      with Some Cons.prems(3) have "main_loop env b s ds result = Some res" by (simp add: x)
      from Cons.IH [OF r Cons.prems(2) this] show ?thesis .
    next
      case (Inr data)
      with Some Cons.prems(1) have "d \<noteq> D" by (auto simp: x)
      then have n: "(result(d \<mapsto> output_filter b s data)) D = None"
        using Cons.prems(2) by simp
      from Inr Some Cons.prems(3)
      have "main_loop env b s ds (result(d \<mapsto> output_filter b s data)) = Some res"
        by (simp add: x)
      from Cons.IH [OF r n this] show ?thesis .
    qed
  qed
qed

lemma main_loop_frame:
  assumes "D2 \<noteq> D"
  shows "map_option (\<lambda>r. r D2) (main_loop env b s ds (result(D := x)))
       = map_option (\<lambda>r. r D2) (main_loop env b s ds result)"
proof (induction ds arbitrary: result x)
  case Nil
  show ?case using assms by simp
next
  case (Cons p ds)
  obtain d sc' where p: "p = (d, sc')" by (cases p)
  show ?case
  proof (cases "aggregate_dataset env sc'")
    case None
    show ?thesis by (simp only: p main_loop_None [OF None])
  next
    case (Some o')
    show ?thesis
    proof (cases o')
      case (Inl e)
      with Some have a: "aggregate_dataset env sc' = Some (Inl e)" by simp
      show ?thesis by (simp only: p main_loop_Inl [OF a] Cons.IH)
    next
      case (Inr data)
      with Some have a: "aggregate_dataset env sc' = Some (Inr data)" by simp
      show ?thesis
      proof (cases "d = D")
        case True
        show ?thesis by (simp only: p True main_loop_Inr [OF a] fun_upd_upd)
      next
        case False
        then have t: "(result(D := x))(d \<mapsto> output_filter b s data)
            = (result(d \<mapsto> output_filter b s data))(D := x)"
          by (rule fun_upd_twist [symmetric, THEN sym, OF not_sym] | simp add: fun_upd_twist)
        show ?thesis by (simp only: p main_loop_Inr [OF a] t Cons.IH)
      qed
    qed
  qed
qed

lemma main_loop_prefix:
  "main_loop env b s (xs @ ys) result =
     (case main_loop env b s xs result of None \<Rightarrow> None | Some r \<Rightarrow> main_loop env b s ys r)"
proof (induction xs arbitrary: result)
  case Nil
  show ?case by simp
next
  case (Cons p xs)
  obtain d sc' where p: "p = (d, sc')" by (cases p)
  show ?case
  proof (cases "aggregate_dataset env sc'")
    case None
    show ?thesis by (simp only: p append_Cons main_loop_None [OF None] option.case)
  next
    case (Some o')
    show ?thesis
    proof (cases o')
      case (Inl e)
      with Some have a: "aggregate_dataset env sc' = Some (Inl e)" by simp
      show ?thesis by (simp only: p append_Cons main_loop_Inl [OF a] Cons.IH)
    next
      case (Inr data)
      with Some have a: "aggregate_dataset env sc' = Some (Inr data)" by simp
      show ?thesis by (simp only: p append_Cons main_loop_Inr [OF a] Cons.IH)
    qed
  qed
qed

lemma main_loop_others_unaffected:
  assumes "aggregate_dataset env sc = Some (Inl e)" and "aggregate_dataset env sc' \<noteq> None"
    and "D2 \<noteq> D"
  shows "map_option (\<lambda>r. r D2) (main_loop env b s (xs @ (D, sc') # ys) result)
       = map_option (\<lambda>r. r D2) (main_loop env b s (xs @ (D, sc) # ys) result)"
proof (cases "main_loop env b s xs result")
  case None
  then show ?thesis by (simp add: main_loop_prefix)
next
  case (Some r)
  from assms(2) obtain o' where o: "aggregate_dataset env sc' = Some o'" by auto
  show ?thesis
  proof (cases o')
    case (Inl e')
    with o Some assms(1) show ?thesis by (simp add: main_loop_prefix)
  next
    case (Inr data)
    with o Some assms(1) show ?thesis
      using main_loop_frame [OF assms(3), of env b s ys r "Some (output_filter b s data)"]
      by (simp add: main_loop_prefix)
  qed
qed

text \<open>
  C8: when the processing of one occurrence of dataset D raises, the loop goes on and the
  result is that of the run without this occurrence; the run returns a result whenever the
  processing of every other dataset comes to an end; D is absent from the result when all
  its occurrences fail; and the entry of every other dataset is what it is when D's
  processing succeeds or fails in any other way.
\<close>

theorem dataset_failure_is_contained:
  assumes "aggregate_dataset env sc = Some (Inl e)"
  shows "main_loop env b s (xs @ (D, sc) # ys) result = main_loop env b s (xs @ ys) result
       \<and> ((\<forall>p \<in> set (xs @ ys). aggregate_dataset env (snd p) \<noteq> None) \<longrightarrow>
            (\<exists>res. main_loop env b s (xs @ (D, sc) # ys) result = Some res))
       \<and> ((\<forall>p \<in> set (xs @ ys). fst p = D \<longrightarrow> (\<exists>e'. aggregate_dataset env (snd p) = Some (Inl e')))
            \<and> main_loop env b s (xs @ (D, sc) # ys) Map.empty = Some res \<longrightarrow> res D = None)
       \<and> (aggregate_dataset env sc' \<noteq> None \<and> D2 \<noteq> D \<longrightarrow>
            map_option (\<lambda>r. r D2) (main_loop env b s (xs @ (D, sc') # ys) result)
            = map_option (\<lambda>r. r D2) (main_loop env b s (xs @ (D, sc) # ys) result))"
proof (intro conjI impI)
  show "main_loop env b s (xs @ (D, sc) # ys) result = main_loop env b s (xs @ ys) result"
    by (rule main_loop_skip [OF assms])
next
  assume "\<forall>p \<in> set (xs @ ys). aggregate_dataset env (snd p) \<noteq> None"
  then show "\<exists>res. main_loop env b s (xs @ (D, sc) # ys) result = Some res"
    unfolding main_loop_skip [OF assms] by (rule main_loop_returns)
next
  assume a: "(\<forall>p \<in> set (xs @ ys). fst p = D \<longrightarrow> (\<exists>e'. aggregate_dataset env (snd p) = Some (Inl e')))
            \<and> main_loop env b s (xs @ (D, sc) # ys) Map.empty = Some res"
  then have "main_loop env b s (xs @ ys) Map.empty = Some res"
    by (simp add: main_loop_skip [OF assms])
  with a show "res D = None"
    using main_loop_absent [of "xs @ ys" D env Map.empty b s res] by simp
next
  assume "aggregate_dataset env sc' \<noteq> None \<and> D2 \<noteq> D"
  then show "map_option (\<lambda>r. r D2) (main_loop env b s (xs @ (D, sc') # ys) result)
            = map_option (\<lambda>r. r D2) (main_loop env b s (xs @ (D, sc) # ys) result)"
    using main_loop_others_unaffected [OF assms] by blast
qed


lemma example_script_aggregate:
  "aggregate_dataset example_env example_script = Some (Inr example_aggregate)"
  by (simp add: aggregate_dataset_def submit_query_for_dataset_def example_script_def
      fetch_query_result_def strip_def strip_quotes_def is_space_def example_aggregate_def)

theorem dataset_failure_is_contained_witness:
  "aggregate_dataset example_env failing_script
     = Some (Inl (RuntimeError ''Task task-2 not found''))
   \<and> main_loop example_env False False [(''d1'', failing_script), (''d2'', example_script)] Map.empty
     = main_loop example_env False False [(''d2'', example_script)] Map.empty
   \<and> (\<exists>res. main_loop example_env False False
              [(''d1'', failing_script), (''d2'', example_script)] Map.empty = Some res
         \<and> res ''d1'' = None
         \<and> map_option (\<lambda>a. count_of a ''Base'' ''triethylamine'') (res ''d2'') = Some 2)"
proof -
  have h: "aggregate_dataset example_env failing_script
     = Some (Inl (RuntimeError ''Task task-2 not found''))"
    by (simp add: aggregate_dataset_def submit_query_for_dataset_def failing_script_def
        fetch_query_result_def strip_def strip_quotes_def is_space_def)
  from dataset_failure_is_contained [OF h, of False False "[]" "''d1''"
      "[(''d2'', example_script)]" Map.empty]
  have sk: "main_loop example_env False False
       [(''d1'', failing_script), (''d2'', example_script)] Map.empty
     = main_loop example_env False False [(''d2'', example_script)] Map.empty"
    by simp
  have r: "main_loop example_env False False [(''d2'', example_script)] Map.empty
     = Some [''d2'' \<mapsto> output_filter False False example_aggregate]"
    by (simp add: example_script_aggregate)
  have c: "count_of example_aggregate ''Base'' ''triethylamine'' = 2"
    by code_simp
  show ?thesis unfolding sk r using h c by (simp add: output_filter_def)
qed

section \<open>Properties of shout\<close>

lemma map_of_zip_upt:
  "map_of (zip [a..<a + n] [b..<b + n]) c =
     (if a \<le> c \<and> c < a + n then Some (b + (c - a)) else None)"
proof (induction n)
  case 0
  show ?case by simp
next
  case (Suc n)
  have "zip [a..<a + Suc n] [b..<b + Suc n] = zip [a..<a + n] [b..<b + n] @ [(a + n, b + n)]"
    by simp
  then show ?case using Suc.IH by (auto simp: map_add_def split: option.splits)
qed

lemma ascii_upper_table_upt: "ascii_upper_table = zip [97..<97 + 26] [65..<65 + 26]"
  by code_simp

lemma upper_code_point_ascii:
  "upper_code_point U c =
     (if 97 \<le> c \<and> c \<le> 122 then [c - 32] else if c < 128 then [c] else U c)"
  unfolding upper_code_point_def ascii_upper_table_upt map_of_zip_upt by auto

lemma str_upper_ascii:
  "\<forall>c \<in> set s. c < 128 \<Longrightarrow>
   str_upper U s = map (\<lambda>c. if 97 \<le> c \<and> c \<le> 122 then c - 32 else c) s"
  by (induction s) (simp_all add: str_upper_def upper_code_point_ascii)

text \<open>
  C10: on a string shout never fails and returns its uppercase: the code points of the
  string in order, each lowercase ASCII letter replaced by its uppercase letter (32 below),
  every other ASCII code point kept, every other code point replaced by its full uppercase
  mapping; so an ASCII string keeps its length and changes at its lowercase letters only.
  shout raises, and then the TypeError, exactly on the values that are not strings.
\<close>

theorem shout_spec:
  "shout U (PyStr s) =
     Inr (concat (map (\<lambda>c. if 97 \<le> c \<and> c \<le> 122 then [c - 32]
                              else if c < 128 then [c] else U c) s))
   \<and> ((\<forall>c \<in> set s. c < 128) \<longrightarrow>
        (\<exists>r. shout U (PyStr s) = Inr r \<and> length r = length s
           \<and> (\<forall>i < length s. r ! i = (if 97 \<le> s ! i \<and> s ! i \<le> 122 then s ! i - 32 else s ! i))))
   \<and> ((\<exists>e. shout U x = Inl e) = (\<not> isinstance_str x))
   \<and> ((shout U x = Inl (TypeError ''s must be a string'')) = (\<not> isinstance_str x))
   \<and> (\<forall>e. shout U (PyStr s) \<noteq> Inl e)"
proof -
  have f: "upper_code_point U = (\<lambda>c. if 97 \<le> c \<and> c \<le> 122 then [c - 32]
                              else if c < 128 then [c] else U c)"
    by (rule ext) (rule upper_code_point_ascii)
  have a: "shout U (PyStr s) =
     Inr (concat (map (\<lambda>c. if 97 \<le> c \<and> c \<le> 122 then [c - 32]
                              else if c < 128 then [c] else U c) s))"
    by (simp add: str_upper_def f)
  have b: "\<exists>r. shout U (PyStr s) = Inr r \<and> length r = length s
           \<and> (\<forall>i < length s. r ! i = (if 97 \<le> s ! i \<and> s ! i \<le> 122 then s ! i - 32 else s ! i))"
    if "\<forall>c \<in> set s. c < 128"
    using str_upper_ascii [OF that, of U] by simp
  have c: "((\<exists>e. shout U x = Inl e) = (\<not> isinstance_str x))
   \<and> ((shout U x = Inl (TypeError ''s must be a string'')) = (\<not> isinstance_str x))"
    by (cases x) simp_all
  from a b c show ?thesis by simp
qed

theorem shout_spec_witness:
  "list_all (\<lambda>c. c < (128 :: nat)) (map of_char ''shout me 1x'')
   \<and> shout example_to_upper (PyStr (map of_char ''shout me 1x'')) = Inr (map of_char ''SHOUT ME 1X'')
   \<and> shout example_to_upper (PyStr [233, 116, 233, 223]) = Inr [201, 84, 201, 83, 83]
   \<and> shout example_to_upper (PyInt 3) = Inl (TypeError ''s must be a string'')
   \<and> \<not> isinstance_str (PyInt 3)"
proof -
  have h: "\<forall>c \<in> set (map of_char ''shout me 1x''). c < (128 :: nat)"
    by simp
  have u: "concat (map (\<lambda>c. if 97 \<le> c \<and> c \<le> 122 then [c - 32]
                              else if c < 128 then [c] else example_to_upper c)
             (map of_char ''shout me 1x'')) = map of_char ''SHOUT ME 1X''"
    by (simp add: example_to_upper_def)
  have v: "concat (map (\<lambda>c. if 97 \<le> c \<and> c \<le> 122 then [c - 32]
                              else if c < 128 then [c] else example_to_upper c)
             [233, 116, 233, 223]) = [201, 84, 201, 83, 83]"
    by (simp add: example_to_upper_def)
  from shout_spec [of example_to_upper "map of_char ''shout me 1x''" "PyInt 3"]
    shout_spec [of example_to_upper "[233, 116, 233, 223]" "PyInt 3"] h
  show ?thesis unfolding u v by (simp add: list_all_iff)
qed

end
